theory Spec2Isabelle
  imports Main
begin

unbundle bit_operations_syntax

section \<open>Simplified DES: a shallow embedding of the SDES class\<close>

text \<open>
  The bit sequences of the program are Python lists of Python integers, so they are
  \<open>int list\<close> here. Every list access of the source is a subscript that raises
  IndexError out of range and that counts a negative index from the end; every method
  therefore returns \<open>error + 'a\<close>, with \<open>Inl\<close> for the exception raised.
\<close>

subsection \<open>Python's exceptions, subscripts, slices and comprehensions\<close>

datatype error = IndexError | ValueError

fun err_bind :: "error + 'a \<Rightarrow> ('a \<Rightarrow> error + 'b) \<Rightarrow> error + 'b" where
  "err_bind (Inl e) f = Inl e"
| "err_bind (Inr x) f = f x"

text \<open>A list comprehension whose element expression may raise: the first exception
  (left to right) ends it.\<close>

fun map_err :: "('a \<Rightarrow> error + 'b) \<Rightarrow> 'a list \<Rightarrow> error + 'b list" where
  "map_err f [] = Inr []"
| "map_err f (x # xs) =
     err_bind (f x) (\<lambda>y. err_bind (map_err f xs) (\<lambda>ys. Inr (y # ys)))"

text \<open>\<^verbatim>\<open>xs[i]\<close>: indices \<open>-len(xs) .. -1\<close> count from the end.\<close>

definition py_index :: "'a list \<Rightarrow> int \<Rightarrow> error + 'a" where
  "py_index xs i =
     (let n = int (length xs) in
      if 0 \<le> i \<and> i < n then Inr (xs ! nat i)
      else if - n \<le> i \<and> i < 0 then Inr (xs ! nat (n + i))
      else Inl IndexError)"

text \<open>The position a slice bound denotes: negative bounds count from the end, and every
  bound is clamped to the list.\<close>

definition slice_pos :: "'a list \<Rightarrow> int \<Rightarrow> nat" where
  "slice_pos xs i =
     (if i < 0 then nat (max 0 (int (length xs) + i)) else min (length xs) (nat i))"

text \<open>\<^verbatim>\<open>xs[i:]\<close> and \<^verbatim>\<open>xs[:i]\<close>.\<close>

definition slice_from :: "'a list \<Rightarrow> int \<Rightarrow> 'a list" where
  "slice_from xs i = drop (slice_pos xs i) xs"

definition slice_to :: "'a list \<Rightarrow> int \<Rightarrow> 'a list" where
  "slice_to xs i = take (slice_pos xs i) xs"

text \<open>\<^verbatim>\<open>range(n)\<close> and \<^verbatim>\<open>enumerate(xs)\<close>.\<close>

definition py_range :: "nat \<Rightarrow> int list" where
  "py_range n = map int [0..<n]"

definition enumerate_py :: "'a list \<Rightarrow> (int \<times> 'a) list" where
  "enumerate_py xs = zip (py_range (length xs)) xs"

text \<open>The binary digits of a natural number, most significant first, as \<^verbatim>\<open>format(v, 'b')\<close>
  prints them.\<close>

fun bin_digits :: "nat \<Rightarrow> int list" where
  "bin_digits n = (if n < 2 then [int n] else bin_digits (n div 2) @ [int (n mod 2)])"

declare bin_digits.simps [simp del]

text \<open>\<^verbatim>\<open>[int(x) for x in f"{value:02b}"]\<close>: the digits are padded with zeros to width 2;
  a negative value prints a minus sign first, on which \<^verbatim>\<open>int\<close> raises ValueError.\<close>

definition format_02b :: "int \<Rightarrow> error + int list" where
  "format_02b v =
     (if v < 0 then Inl ValueError
      else let ds = bin_digits (nat v) in Inr (replicate (2 - length ds) 0 @ ds))"

subsection \<open>The class\<close>

text \<open>The attributes \<^verbatim>\<open>__init__\<close> assigns. \<open>K1\<close> and \<open>K2\<close> are assigned last, from
  \<open>generate_keys\<close>, which reads only \<open>key\<close>, \<open>P10\<close> and \<open>P8\<close>.\<close>

record sdes =
  key :: "int list"
  P10 :: "int list"
  P8 :: "int list"
  IP :: "int list"
  IP_INV :: "int list"
  EP :: "int list"
  P4 :: "int list"
  S0 :: "int list list"
  S1 :: "int list list"
  K1 :: "int list"
  K2 :: "int list"

text \<open>\<^verbatim>\<open>return [sequence[i-1] for i in table]\<close> (the method does not read \<open>self\<close>).\<close>

definition permute :: "'a list \<Rightarrow> int list \<Rightarrow> error + 'a list" where
  "permute sequence table = map_err (\<lambda>i. py_index sequence (i - 1)) table"

text \<open>\<^verbatim>\<open>return half[shifts:] + half[:shifts]\<close>\<close>

definition left_shift :: "'a list \<Rightarrow> int \<Rightarrow> 'a list" where
  "left_shift half shifts = slice_from half shifts @ slice_to half shifts"

definition generate_keys :: "sdes \<Rightarrow> error + (int list \<times> int list)" where
  "generate_keys self =
     err_bind (permute (key self) (P10 self)) (\<lambda>k.
       let left = slice_to k 5; right = slice_from k 5;
           left1 = left_shift left 1; right1 = left_shift right 1
       in err_bind (permute (left1 @ right1) (P8 self)) (\<lambda>k1.
            let left2 = left_shift left1 2; right2 = left_shift right1 2
            in err_bind (permute (left2 @ right2) (P8 self)) (\<lambda>k2.
                 Inr (k1, k2))))"

text \<open>The constructor: the tables, then the two subkeys. The record handed to
  \<open>generate_keys\<close> has no \<open>K1\<close> and \<open>K2\<close> yet; the empty lists stand for the
  attributes not assigned so far.\<close>

definition init :: "int list \<Rightarrow> error + sdes" where
  "init k =
     (let self = \<lparr> key = k,
                   P10 = [3, 5, 2, 7, 4, 10, 1, 9, 8, 6],
                   P8 = [6, 3, 7, 4, 8, 5, 10, 9],
                   IP = [2, 6, 3, 1, 4, 8, 5, 7],
                   IP_INV = [4, 1, 3, 5, 7, 2, 8, 6],
                   EP = [4, 1, 2, 3, 2, 3, 4, 1],
                   P4 = [2, 4, 3, 1],
                   S0 = [[1, 0, 3, 2], [3, 2, 1, 0], [0, 2, 1, 3], [3, 1, 3, 2]],
                   S1 = [[0, 1, 2, 3], [2, 0, 1, 3], [3, 0, 1, 0], [2, 1, 0, 3]],
                   K1 = [], K2 = [] \<rparr>
      in err_bind (generate_keys self) (\<lambda>(k1, k2). Inr (self\<lparr>K1 := k1, K2 := k2\<rparr>)))"

text \<open>The method \<open>sbox\<close> reads its table argument, not \<open>self\<close>.\<close>

definition sbox :: "int list \<Rightarrow> int list list \<Rightarrow> error + int list" where
  "sbox half tbl =
     err_bind (py_index half 0) (\<lambda>h0.
     err_bind (py_index half 3) (\<lambda>h3.
       let row = push_bit 1 h0 + h3 in
     err_bind (py_index half 1) (\<lambda>h1.
     err_bind (py_index half 2) (\<lambda>h2.
       let col = push_bit 1 h1 + h2 in
     err_bind (py_index tbl row) (\<lambda>r.
     err_bind (py_index r col) (\<lambda>v.
       format_02b v))))))"

definition feistel :: "sdes \<Rightarrow> int list \<Rightarrow> int list \<Rightarrow> error + int list" where
  "feistel self half subkey =
     err_bind (permute half (EP self)) (\<lambda>expanded.
     err_bind (map_err (\<lambda>i. err_bind (py_index expanded i) (\<lambda>a.
                              err_bind (py_index subkey i) (\<lambda>b. Inr (a XOR b))))
                       (py_range 8)) (\<lambda>xor_result.
       let left = slice_to xor_result 4; right = slice_from xor_result 4 in
     err_bind (sbox left (S0 self)) (\<lambda>s0.
     err_bind (sbox right (S1 self)) (\<lambda>s1.
       permute (s0 @ s1) (P4 self)))))"

text \<open>\<^verbatim>\<open>[left[i] ^ bit for i, bit in enumerate(f)]\<close>\<close>

definition xor_enum :: "int list \<Rightarrow> int list \<Rightarrow> error + int list" where
  "xor_enum left f =
     map_err (\<lambda>(i, bit). err_bind (py_index left i) (\<lambda>a. Inr (a XOR bit))) (enumerate_py f)"

definition encrypt :: "sdes \<Rightarrow> int list \<Rightarrow> error + int list" where
  "encrypt self plaintext =
     err_bind (permute plaintext (IP self)) (\<lambda>data.
       let left = slice_to data 4; right = slice_from data 4;
           temp = right in
     err_bind (feistel self right (K1 self)) (\<lambda>f1.
     err_bind (xor_enum left f1) (\<lambda>left'.
       let right = left'; left = temp in
     err_bind (feistel self right (K2 self)) (\<lambda>f2.
     err_bind (xor_enum left f2) (\<lambda>left''.
       permute (left'' @ right) (IP_INV self))))))"

definition decrypt :: "sdes \<Rightarrow> int list \<Rightarrow> error + int list" where
  "decrypt self ciphertext =
     err_bind (permute ciphertext (IP self)) (\<lambda>data.
       let left = slice_to data 4; right = slice_from data 4;
           temp = right in
     err_bind (feistel self right (K2 self)) (\<lambda>f2.
     err_bind (xor_enum left f2) (\<lambda>left'.
       let right = left'; left = temp in
     err_bind (feistel self right (K1 self)) (\<lambda>f1.
     err_bind (xor_enum left f1) (\<lambda>left''.
       permute (left'' @ right) (IP_INV self))))))"

subsection \<open>Well-formed input\<close>

definition is_bits :: "int list \<Rightarrow> bool" where
  "is_bits xs = list_all (\<lambda>x. x = 0 \<or> x = 1) xs"

definition wf_key :: "int list \<Rightarrow> bool" where
  "wf_key k = (length k = 10 \<and> is_bits k)"

definition wf_block :: "int list \<Rightarrow> bool" where
  "wf_block b = (length b = 8 \<and> is_bits b)"

text \<open>A substitution table as the data model has it: a 4 by 4 grid of values 0 to 3.\<close>

definition wf_sbox :: "int list list \<Rightarrow> bool" where
  "wf_sbox tbl =
     (length tbl = 4 \<and>
      list_all (\<lambda>r. length r = 4 \<and> list_all (\<lambda>v. 0 \<le> v \<and> v \<le> 3) r) tbl)"

text \<open>An instance whose tables are the ones the constructor assigns.\<close>

definition std_tables :: "sdes \<Rightarrow> bool" where
  "std_tables self =
     (P10 self = [3, 5, 2, 7, 4, 10, 1, 9, 8, 6] \<and>
      P8 self = [6, 3, 7, 4, 8, 5, 10, 9] \<and>
      IP self = [2, 6, 3, 1, 4, 8, 5, 7] \<and>
      IP_INV self = [4, 1, 3, 5, 7, 2, 8, 6] \<and>
      EP self = [4, 1, 2, 3, 2, 3, 4, 1] \<and>
      P4 self = [2, 4, 3, 1] \<and>
      S0 self = [[1, 0, 3, 2], [3, 2, 1, 0], [0, 2, 1, 3], [3, 1, 3, 2]] \<and>
      S1 self = [[0, 1, 2, 3], [2, 0, 1, 3], [3, 0, 1, 0], [2, 1, 0, 3]])"

text \<open>The body that \<open>encrypt\<close> and \<open>decrypt\<close> share, with the subkeys of the two rounds as
  parameters: \<open>encrypt\<close> is \<open>two_rounds\<close> on \<open>K1, K2\<close> and \<open>decrypt\<close> on \<open>K2, K1\<close>
  (lemmas \<open>encrypt_two_rounds\<close> and \<open>decrypt_two_rounds\<close>).\<close>

definition two_rounds :: "sdes \<Rightarrow> int list \<Rightarrow> int list \<Rightarrow> int list \<Rightarrow> error + int list" where
  "two_rounds self ka kb block =
     err_bind (permute block (IP self)) (\<lambda>data.
       let left = slice_to data 4; right = slice_from data 4;
           temp = right in
     err_bind (feistel self right ka) (\<lambda>fa.
     err_bind (xor_enum left fa) (\<lambda>left'.
       let right = left'; left = temp in
     err_bind (feistel self right kb) (\<lambda>fb.
     err_bind (xor_enum left fb) (\<lambda>left''.
       permute (left'' @ right) (IP_INV self))))))"

subsection \<open>The specification's reading of the round function and of encryption\<close>

text \<open>The round function as the specification words it: expand, mix pointwise with the
  subkey, substitute the two halves, permute.\<close>

definition feistel_spec :: "sdes \<Rightarrow> int list \<Rightarrow> int list \<Rightarrow> error + int list" where
  "feistel_spec self half subkey =
     err_bind (permute half (EP self)) (\<lambda>expanded.
       let mixed = map2 (XOR) expanded subkey;
           l4 = take 4 mixed; r4 = drop 4 mixed in
     err_bind (sbox l4 (S0 self)) (\<lambda>o0.
     err_bind (sbox r4 (S1 self)) (\<lambda>o1.
       permute (o0 @ o1) (P4 self))))"

text \<open>Encryption as the specification words it: the initial permutation, a round with
  swap on \<open>K1\<close>, a round without swap on \<open>K2\<close>, the final permutation; the exclusive or
  of two halves is pointwise.\<close>

definition encrypt_spec :: "sdes \<Rightarrow> int list \<Rightarrow> error + int list" where
  "encrypt_spec self plaintext =
     err_bind (permute plaintext (IP self)) (\<lambda>ip.
       let L0 = take 4 ip; R0 = drop 4 ip in
     err_bind (feistel self R0 (K1 self)) (\<lambda>F1.
       let L1 = map2 (XOR) L0 F1; left = R0; right = L1 in
     err_bind (feistel self right (K2 self)) (\<lambda>F2.
       let newLeft = map2 (XOR) left F2 in
       permute (newLeft @ right) (IP_INV self))))"

subsection \<open>Tables in and out of range\<close>

text \<open>Every entry of the table is a 1-based position of the source.\<close>

definition in_range :: "'a list \<Rightarrow> int list \<Rightarrow> bool" where
  "in_range source table = list_all (\<lambda>t. 1 \<le> t \<and> t \<le> int (length source)) table"

text \<open>Every entry is one that Python's subscript accepts once 1 is subtracted: a 1-based
  position, or one of \<open>1 - n .. 0\<close>, which count from the end.\<close>

definition in_wrap_range :: "'a list \<Rightarrow> int list \<Rightarrow> bool" where
  "in_wrap_range source table =
     list_all (\<lambda>t. 1 - int (length source) \<le> t \<and> t \<le> int (length source)) table"

subsection \<open>The instance of the usage example\<close>

definition example_instance :: sdes where
  "example_instance =
     \<lparr> key = [1, 0, 1, 0, 0, 0, 0, 0, 1, 0],
       P10 = [3, 5, 2, 7, 4, 10, 1, 9, 8, 6],
       P8 = [6, 3, 7, 4, 8, 5, 10, 9],
       IP = [2, 6, 3, 1, 4, 8, 5, 7],
       IP_INV = [4, 1, 3, 5, 7, 2, 8, 6],
       EP = [4, 1, 2, 3, 2, 3, 4, 1],
       P4 = [2, 4, 3, 1],
       S0 = [[1, 0, 3, 2], [3, 2, 1, 0], [0, 2, 1, 3], [3, 1, 3, 2]],
       S1 = [[0, 1, 2, 3], [2, 0, 1, 3], [3, 0, 1, 0], [2, 1, 0, 3]],
       K1 = [1, 0, 1, 0, 0, 1, 0, 0], K2 = [0, 1, 0, 0, 0, 0, 1, 1] \<rparr>"

subsection \<open>The methods as transformers of the store of objects\<close>

text \<open>
  The functions above give what each method computes from the attributes of \<open>self\<close>.
  Here the methods are written once more, statement by statement, over the store of the
  program: a map from the address of an object to its attributes. \<open>self\<close> is an address,
  reading \<^verbatim>\<open>self.X\<close> is \<open>get_attr\<close>, the assignment \<^verbatim>\<open>self.X = v\<close> is \<open>set_attr\<close>, a call of
  another method passes the store on, and an exception ends the computation with the store
  as it is at that point. A method that assigned an attribute, of its own object or of
  another, would return another store. No statement of the class changes a list in place,
  so lists are values.
\<close>

type_synonym addr = nat
type_synonym store = "addr \<Rightarrow> sdes"
type_synonym 'a st = "store \<Rightarrow> (error + 'a) \<times> store"

text \<open>Returning a value, a computation on local values only, and sequencing.\<close>

definition ret :: "'a \<Rightarrow> 'a st" where
  "ret x = (\<lambda>h. (Inr x, h))"

definition lift :: "error + 'a \<Rightarrow> 'a st" where
  "lift r = (\<lambda>h. (r, h))"

definition bind_st :: "'a st \<Rightarrow> ('a \<Rightarrow> 'b st) \<Rightarrow> 'b st" where
  "bind_st m f = (\<lambda>h. case m h of (Inl e, h') \<Rightarrow> (Inl e, h') | (Inr x, h') \<Rightarrow> f x h')"

text \<open>\<^verbatim>\<open>self.X\<close> and \<^verbatim>\<open>self.X = v\<close>.\<close>

definition get_attr :: "addr \<Rightarrow> (sdes \<Rightarrow> 'a) \<Rightarrow> 'a st" where
  "get_attr self sel = (\<lambda>h. (Inr (sel (h self)), h))"

definition set_attr :: "addr \<Rightarrow> (sdes \<Rightarrow> sdes) \<Rightarrow> unit st" where
  "set_attr self upd = (\<lambda>h. (Inr (), h(self := upd (h self))))"

definition permute_st :: "addr \<Rightarrow> 'a list \<Rightarrow> int list \<Rightarrow> 'a list st" where
  "permute_st self sequence table =
     lift (map_err (\<lambda>i. py_index sequence (i - 1)) table)"

definition left_shift_st :: "addr \<Rightarrow> 'a list \<Rightarrow> int \<Rightarrow> 'a list st" where
  "left_shift_st self half shifts = ret (slice_from half shifts @ slice_to half shifts)"

definition generate_keys_st :: "addr \<Rightarrow> (int list \<times> int list) st" where
  "generate_keys_st self =
     bind_st (get_attr self key) (\<lambda>k.
     bind_st (get_attr self P10) (\<lambda>p10.
     bind_st (permute_st self k p10) (\<lambda>k'.
       let left = slice_to k' 5; right = slice_from k' 5 in
     bind_st (left_shift_st self left 1) (\<lambda>left1.
     bind_st (left_shift_st self right 1) (\<lambda>right1.
     bind_st (get_attr self P8) (\<lambda>p8.
     bind_st (permute_st self (left1 @ right1) p8) (\<lambda>k1.
     bind_st (left_shift_st self left1 2) (\<lambda>left2.
     bind_st (left_shift_st self right1 2) (\<lambda>right2.
     bind_st (get_attr self P8) (\<lambda>p8'.
     bind_st (permute_st self (left2 @ right2) p8') (\<lambda>k2.
       ret (k1, k2))))))))))))"

text \<open>\<^verbatim>\<open>__init__\<close>: eleven assignments to attributes of \<open>self\<close>, the last two after the call of
  \<open>generate_keys\<close>.\<close>

definition init_st :: "addr \<Rightarrow> int list \<Rightarrow> unit st" where
  "init_st self k =
     bind_st (set_attr self (\<lambda>obj. obj\<lparr>key := k\<rparr>)) (\<lambda>_.
     bind_st (set_attr self (\<lambda>obj. obj\<lparr>P10 := [3, 5, 2, 7, 4, 10, 1, 9, 8, 6]\<rparr>)) (\<lambda>_.
     bind_st (set_attr self (\<lambda>obj. obj\<lparr>P8 := [6, 3, 7, 4, 8, 5, 10, 9]\<rparr>)) (\<lambda>_.
     bind_st (set_attr self (\<lambda>obj. obj\<lparr>IP := [2, 6, 3, 1, 4, 8, 5, 7]\<rparr>)) (\<lambda>_.
     bind_st (set_attr self (\<lambda>obj. obj\<lparr>IP_INV := [4, 1, 3, 5, 7, 2, 8, 6]\<rparr>)) (\<lambda>_.
     bind_st (set_attr self (\<lambda>obj. obj\<lparr>EP := [4, 1, 2, 3, 2, 3, 4, 1]\<rparr>)) (\<lambda>_.
     bind_st (set_attr self (\<lambda>obj. obj\<lparr>P4 := [2, 4, 3, 1]\<rparr>)) (\<lambda>_.
     bind_st (set_attr self
        (\<lambda>obj. obj\<lparr>S0 := [[1, 0, 3, 2], [3, 2, 1, 0], [0, 2, 1, 3], [3, 1, 3, 2]]\<rparr>)) (\<lambda>_.
     bind_st (set_attr self
        (\<lambda>obj. obj\<lparr>S1 := [[0, 1, 2, 3], [2, 0, 1, 3], [3, 0, 1, 0], [2, 1, 0, 3]]\<rparr>)) (\<lambda>_.
     bind_st (generate_keys_st self) (\<lambda>(k1, k2).
     bind_st (set_attr self (\<lambda>obj. obj\<lparr>K1 := k1\<rparr>)) (\<lambda>_.
     set_attr self (\<lambda>obj. obj\<lparr>K2 := k2\<rparr>))))))))))))"

definition sbox_st :: "addr \<Rightarrow> int list \<Rightarrow> int list list \<Rightarrow> int list st" where
  "sbox_st self half tbl =
     bind_st (lift (py_index half 0)) (\<lambda>h0.
     bind_st (lift (py_index half 3)) (\<lambda>h3.
       let row = push_bit 1 h0 + h3 in
     bind_st (lift (py_index half 1)) (\<lambda>h1.
     bind_st (lift (py_index half 2)) (\<lambda>h2.
       let col = push_bit 1 h1 + h2 in
     bind_st (lift (py_index tbl row)) (\<lambda>r.
     bind_st (lift (py_index r col)) (\<lambda>v.
       lift (format_02b v)))))))"

definition feistel_st :: "addr \<Rightarrow> int list \<Rightarrow> int list \<Rightarrow> int list st" where
  "feistel_st self half subkey =
     bind_st (get_attr self EP) (\<lambda>ep.
     bind_st (permute_st self half ep) (\<lambda>expanded.
     bind_st (lift (map_err (\<lambda>i. err_bind (py_index expanded i) (\<lambda>a.
                              err_bind (py_index subkey i) (\<lambda>b. Inr (a XOR b))))
                       (py_range 8))) (\<lambda>xor_result.
       let left = slice_to xor_result 4; right = slice_from xor_result 4 in
     bind_st (get_attr self S0) (\<lambda>s0.
     bind_st (sbox_st self left s0) (\<lambda>o0.
     bind_st (get_attr self S1) (\<lambda>s1.
     bind_st (sbox_st self right s1) (\<lambda>o1.
     bind_st (get_attr self P4) (\<lambda>p4.
       permute_st self (o0 @ o1) p4))))))))"

definition encrypt_st :: "addr \<Rightarrow> int list \<Rightarrow> int list st" where
  "encrypt_st self plaintext =
     bind_st (get_attr self IP) (\<lambda>ip.
     bind_st (permute_st self plaintext ip) (\<lambda>data.
       let left = slice_to data 4; right = slice_from data 4;
           temp = right in
     bind_st (get_attr self K1) (\<lambda>k1.
     bind_st (feistel_st self right k1) (\<lambda>f1.
     bind_st (lift (xor_enum left f1)) (\<lambda>left'.
       let right = left'; left = temp in
     bind_st (get_attr self K2) (\<lambda>k2.
     bind_st (feistel_st self right k2) (\<lambda>f2.
     bind_st (lift (xor_enum left f2)) (\<lambda>left''.
     bind_st (get_attr self IP_INV) (\<lambda>ip_inv.
       permute_st self (left'' @ right) ip_inv)))))))))"

definition decrypt_st :: "addr \<Rightarrow> int list \<Rightarrow> int list st" where
  "decrypt_st self ciphertext =
     bind_st (get_attr self IP) (\<lambda>ip.
     bind_st (permute_st self ciphertext ip) (\<lambda>data.
       let left = slice_to data 4; right = slice_from data 4;
           temp = right in
     bind_st (get_attr self K2) (\<lambda>k2.
     bind_st (feistel_st self right k2) (\<lambda>f2.
     bind_st (lift (xor_enum left f2)) (\<lambda>left'.
       let right = left'; left = temp in
     bind_st (get_attr self K1) (\<lambda>k1.
     bind_st (feistel_st self right k1) (\<lambda>f1.
     bind_st (lift (xor_enum left f1)) (\<lambda>left''.
     bind_st (get_attr self IP_INV) (\<lambda>ip_inv.
       permute_st self (left'' @ right) ip_inv)))))))))"

text \<open>The computation \<open>m\<close>, run in the store \<open>h\<close>, returns \<open>r\<close> and leaves the store as it is.\<close>

definition reads :: "'a st \<Rightarrow> store \<Rightarrow> error + 'a \<Rightarrow> bool" where
  "reads m h r = (m h = (r, h))"

text \<open>A store in which no object has been constructed.\<close>

definition blank_store :: store where
  "blank_store = (\<lambda>a. \<lparr> key = [], P10 = [], P8 = [], IP = [], IP_INV = [], EP = [], P4 = [],
                          S0 = [], S1 = [], K1 = [], K2 = [] \<rparr>)"

section \<open>Auxiliary facts\<close>

subsection \<open>Lists of a known length\<close>

lemma length4E: "length xs = 4 \<Longrightarrow> \<exists>a b c d. xs = [a, b, c, d]"
  by (clarsimp simp add: eval_nat_numeral length_Suc_conv)

lemma length8E: "length xs = 8 \<Longrightarrow> \<exists>a b c d e f g h. xs = [a, b, c, d, e, f, g, h]"
  by (clarsimp simp add: eval_nat_numeral length_Suc_conv)

lemma length10E:
  "length xs = 10 \<Longrightarrow> \<exists>a b c d e f g h i j. xs = [a, b, c, d, e, f, g, h, i, j]"
  by (clarsimp simp add: eval_nat_numeral length_Suc_conv)

lemma bits4:
  "is_bits [a, b, c, d] \<longleftrightarrow>
     (a = 0 \<or> a = 1) \<and> (b = 0 \<or> b = 1) \<and> (c = 0 \<or> c = 1) \<and> (d = 0 \<or> d = 1)"
  by (simp add: is_bits_def)

lemma xor_cancel: "(a XOR b) XOR b = (a::int)"
  by (simp add: xor.assoc)

lemma xor_bit: "(a = 0 \<or> a = 1) \<Longrightarrow> (b = 0 \<or> b = 1) \<Longrightarrow> a XOR b = 0 \<or> a XOR b = (1::int)"
  by auto

lemma shift1: "push_bit 1 (a::int) = 2 * a"
  by (simp add: push_bit_eq_mult)

subsection \<open>Subscripts, slices and the fixed tables on explicit lists\<close>

lemma py_index_in: "0 \<le> i \<Longrightarrow> i < int (length xs) \<Longrightarrow> py_index xs i = Inr (xs ! nat i)"
  by (simp add: py_index_def)

lemma py_index4:
  "py_index [a, b, c, d] 0 = Inr a" "py_index [a, b, c, d] 1 = Inr b"
  "py_index [a, b, c, d] 2 = Inr c" "py_index [a, b, c, d] 3 = Inr d"
  by (simp_all add: py_index_def)

lemma slice4_8:
  "slice_to [a, b, c, d, e, f, g, h] 4 = [a, b, c, d]"
  "slice_from [a, b, c, d, e, f, g, h] 4 = [e, f, g, h]"
  by (simp_all add: slice_to_def slice_from_def slice_pos_def)

lemma permute_IP8:
  "permute [a, b, c, d, e, f, g, h] [2, 6, 3, 1, 4, 8, 5, 7] = Inr [b, f, c, a, d, h, e, g]"
  by (simp add: permute_def py_index_def)

lemma permute_IP_INV8:
  "permute [a, b, c, d, e, f, g, h] [4, 1, 3, 5, 7, 2, 8, 6] = Inr [d, a, c, e, g, b, h, f]"
  by (simp add: permute_def py_index_def)

lemma permute_EP4:
  "permute [a, b, c, d] [4, 1, 2, 3, 2, 3, 4, 1] = Inr [d, a, b, c, b, c, d, a]"
  by (simp add: permute_def py_index_def)

lemma permute_P4: "permute [a, b, c, d] [2, 4, 3, 1] = Inr [b, d, c, a]"
  by (simp add: permute_def py_index_def)

lemma xor_enum4:
  "xor_enum [a, b, c, d] [e, f, g, h] = Inr [a XOR e, b XOR f, c XOR g, d XOR h]"
  by (simp add: xor_enum_def enumerate_py_def py_range_def py_index_def)

lemma py_range_8: "py_range 8 = [0, 1, 2, 3, 4, 5, 6, 7]"
  by code_simp

subsection \<open>The substitution function\<close>

lemma format_02b_small:
  assumes "0 \<le> v" "v \<le> 3"
  shows "format_02b v = Inr [v div 2, v mod 2]"
proof -
  from assms have "v = 0 \<or> v = 1 \<or> v = 2 \<or> v = 3" by arith
  then show ?thesis
    by (elim disjE) (simp_all add: format_02b_def bin_digits.simps)
qed

lemma sbox_explicit:
  "sbox [a, b, c, d] tbl =
     err_bind (py_index tbl (2 * a + d)) (\<lambda>r. err_bind (py_index r (2 * b + c)) format_02b)"
  unfolding sbox_def shift1 by (simp add: py_index4)

lemma wf_sbox_entry:
  assumes "wf_sbox tbl" "0 \<le> i" "i \<le> 3" "0 \<le> j" "j \<le> 3"
  shows "length (tbl ! nat i) = 4" "0 \<le> tbl ! nat i ! nat j" "tbl ! nat i ! nat j \<le> 3"
proof -
  from assms have i: "nat i < length tbl" by (simp add: wf_sbox_def)
  with assms(1) show l: "length (tbl ! nat i) = 4"
    by (simp add: wf_sbox_def list_all_length)
  from assms(1) i have "list_all (\<lambda>v. 0 \<le> v \<and> v \<le> 3) (tbl ! nat i)"
    by (simp add: wf_sbox_def list_all_length)
  moreover from l assms have "nat j < length (tbl ! nat i)" by simp
  ultimately show "0 \<le> tbl ! nat i ! nat j" "tbl ! nat i ! nat j \<le> 3"
    by (simp_all add: list_all_length)
qed

lemma sbox_lookup:
  assumes "wf_sbox tbl" "0 \<le> i" "i \<le> 3" "0 \<le> j" "j \<le> 3"
  shows "err_bind (py_index tbl i) (\<lambda>r. err_bind (py_index r j) format_02b)
         = Inr [tbl ! nat i ! nat j div 2, tbl ! nat i ! nat j mod 2]"
proof -
  from assms have "py_index tbl i = Inr (tbl ! nat i)"
    by (simp add: py_index_in wf_sbox_def)
  moreover from wf_sbox_entry(1)[OF assms] assms
  have "py_index (tbl ! nat i) j = Inr (tbl ! nat i ! nat j)"
    by (simp add: py_index_in)
  ultimately show ?thesis using wf_sbox_entry(2,3)[OF assms]
    by (simp add: format_02b_small)
qed

lemma sbox_bits4:
  assumes "is_bits [a, b, c, d]" "wf_sbox tbl"
  shows "sbox [a, b, c, d] tbl =
           Inr [tbl ! nat (2 * a + d) ! nat (2 * b + c) div 2,
                tbl ! nat (2 * a + d) ! nat (2 * b + c) mod 2]"
proof -
  from assms(1) have "0 \<le> 2 * a + d" "2 * a + d \<le> 3" "0 \<le> 2 * b + c" "2 * b + c \<le> 3"
    by (auto simp add: bits4)
  from sbox_lookup[OF assms(2) this] show ?thesis by (simp add: sbox_explicit)
qed

lemma sbox_out_bits:
  assumes "is_bits [a, b, c, d]" "wf_sbox tbl"
  shows "\<exists>x y. sbox [a, b, c, d] tbl = Inr [x, y] \<and> (x = 0 \<or> x = 1) \<and> (y = 0 \<or> y = 1)"
proof -
  from assms(1) have r: "0 \<le> 2 * a + d" "2 * a + d \<le> 3" "0 \<le> 2 * b + c" "2 * b + c \<le> 3"
    by (auto simp add: bits4)
  let ?v = "tbl ! nat (2 * a + d) ! nat (2 * b + c)"
  from wf_sbox_entry(2,3)[OF assms(2) r] have "?v = 0 \<or> ?v = 1 \<or> ?v = 2 \<or> ?v = 3" by arith
  then have "(?v div 2 = 0 \<or> ?v div 2 = 1) \<and> (?v mod 2 = 0 \<or> ?v mod 2 = 1)"
    by (elim disjE) simp_all
  with sbox_bits4[OF assms] show ?thesis by simp
qed

lemma std_sboxes: "std_tables self \<Longrightarrow> wf_sbox (S0 self) \<and> wf_sbox (S1 self)"
  by (simp add: std_tables_def wf_sbox_def)

subsection \<open>The round function\<close>

lemma feistel_explicit:
  assumes "std_tables self"
  shows "feistel self [a, b, c, d] [k1, k2, k3, k4, k5, k6, k7, k8] =
     err_bind (sbox [d XOR k1, a XOR k2, b XOR k3, c XOR k4] (S0 self)) (\<lambda>s0.
     err_bind (sbox [b XOR k5, c XOR k6, d XOR k7, a XOR k8] (S1 self)) (\<lambda>s1.
       permute (s0 @ s1) (P4 self)))"
proof -
  have x: "map_err (\<lambda>i. err_bind (py_index [d, a, b, c, b, c, d, a] i) (\<lambda>a.
                        err_bind (py_index [k1, k2, k3, k4, k5, k6, k7, k8] i) (\<lambda>b. Inr (a XOR b))))
                  (py_range 8) = Inr [d XOR k1, a XOR k2, b XOR k3, c XOR k4, b XOR k5, c XOR k6, d XOR k7, a XOR k8]"
    by (simp add: py_range_8 py_index_def)
  from assms have "EP self = [4, 1, 2, 3, 2, 3, 4, 1]" by (simp add: std_tables_def)
  then show ?thesis
    unfolding feistel_def by (simp add: permute_EP4 x slice4_8)
qed

lemma feistel_bits:
  assumes "std_tables self" "is_bits [a, b, c, d]" "is_bits [k1, k2, k3, k4, k5, k6, k7, k8]"
  shows "\<exists>w x y z. feistel self [a, b, c, d] [k1, k2, k3, k4, k5, k6, k7, k8] = Inr [w, x, y, z]
           \<and> is_bits [w, x, y, z]"
proof -
  from assms(2,3) have "is_bits [d XOR k1, a XOR k2, b XOR k3, c XOR k4]"
     "is_bits [b XOR k5, c XOR k6, d XOR k7, a XOR k8]"
    by (simp_all add: is_bits_def xor_bit)
  note b = this
  from std_sboxes[OF assms(1)] have s0: "wf_sbox (S0 self)" and s1: "wf_sbox (S1 self)"
    by simp_all
  from sbox_out_bits[OF b(1) s0] obtain w x where
    wx: "sbox [d XOR k1, a XOR k2, b XOR k3, c XOR k4] (S0 self) = Inr [w, x]"
        "w = 0 \<or> w = 1" "x = 0 \<or> x = 1"
    by blast
  from sbox_out_bits[OF b(2) s1] obtain y z where
    yz: "sbox [b XOR k5, c XOR k6, d XOR k7, a XOR k8] (S1 self) = Inr [y, z]"
        "y = 0 \<or> y = 1" "z = 0 \<or> z = 1"
    by blast
  note wx yz
  moreover from assms(1) have "P4 self = [2, 4, 3, 1]" by (simp add: std_tables_def)
  ultimately show ?thesis
    by (simp add: feistel_explicit[OF assms(1)] permute_P4 is_bits_def)
qed

lemma feistel_total:
  assumes "std_tables self" "length h = 4" "is_bits h" "wf_block k"
  shows "\<exists>f. feistel self h k = Inr f \<and> length f = 4 \<and> is_bits f"
proof -
  from assms(2) obtain a b c d where h: "h = [a, b, c, d]" using length4E by blast
  from assms(4) obtain k1 k2 k3 k4 k5 k6 k7 k8 where k: "k = [k1, k2, k3, k4, k5, k6, k7, k8]"
    unfolding wf_block_def using length8E by blast
  from feistel_bits[OF assms(1), of a b c d k1 k2 k3 k4 k5 k6 k7 k8] assms(3,4)
  show ?thesis unfolding h k wf_block_def by auto
qed

subsection \<open>The two rounds\<close>

lemma encrypt_two_rounds: "encrypt self p = two_rounds self (K1 self) (K2 self) p"
  by (simp add: encrypt_def two_rounds_def)

lemma decrypt_two_rounds: "decrypt self c = two_rounds self (K2 self) (K1 self) c"
  by (simp add: decrypt_def two_rounds_def)

lemma two_rounds_inverse:
  assumes st: "std_tables self" and ka: "wf_block ka" and kb: "wf_block kb" and p: "wf_block p"
  shows "\<exists>c. two_rounds self ka kb p = Inr c \<and> wf_block c \<and> two_rounds self kb ka c = Inr p"
proof -
  from p obtain p1 p2 p3 p4 p5 p6 p7 p8 where pe: "p = [p1, p2, p3, p4, p5, p6, p7, p8]"
    unfolding wf_block_def using length8E by blast
  from st have ip: "IP self = [2, 6, 3, 1, 4, 8, 5, 7]" and ipi: "IP_INV self = [4, 1, 3, 5, 7, 2, 8, 6]"
    by (simp_all add: std_tables_def)
  from p pe have bl: "is_bits [p2, p6, p3, p1]" and br: "is_bits [p4, p8, p5, p7]"
    by (simp_all add: wf_block_def is_bits_def)
  from feistel_total[OF st _ br ka] obtain f1 f2 f3 f4 where
    fa: "feistel self [p4, p8, p5, p7] ka = Inr [f1, f2, f3, f4]" and fab: "is_bits [f1, f2, f3, f4]"
    using length4E by fastforce
  let ?l1 = "[p2 XOR f1, p6 XOR f2, p3 XOR f3, p1 XOR f4]"
  from bl fab have bl1: "is_bits ?l1" by (simp add: is_bits_def xor_bit)
  from feistel_total[OF st _ bl1 kb] obtain g1 g2 g3 g4 where
    fb: "feistel self ?l1 kb = Inr [g1, g2, g3, g4]" and fbb: "is_bits [g1, g2, g3, g4]"
    using length4E by fastforce
  let ?c = "[p7 XOR g4, p4 XOR g1, p5 XOR g3, p2 XOR f1, p3 XOR f3, p8 XOR g2, p1 XOR f4, p6 XOR f2]"
  have enc: "two_rounds self ka kb p = Inr ?c"
    unfolding two_rounds_def pe ip ipi
    by (simp add: permute_IP8 slice4_8 fa xor_enum4 fb permute_IP_INV8)
  from br fbb bl1 have wc: "wf_block ?c"
    by (simp add: wf_block_def is_bits_def xor_bit)
  have dec: "two_rounds self kb ka ?c = Inr p"
    unfolding two_rounds_def pe ip ipi
    by (simp add: permute_IP8 slice4_8 fa xor_enum4 fb permute_IP_INV8 xor_cancel)
  from enc wc dec show ?thesis by blast
qed

subsection \<open>The key schedule and the constructor\<close>

lemma generate_keys_update:
  "generate_keys (self\<lparr>K1 := k1, K2 := k2\<rparr>) = generate_keys self"
  by (simp add: generate_keys_def)

lemma permute_P10:
  "permute [a, b, c, d, e, f, g, h, i, j] [3, 5, 2, 7, 4, 10, 1, 9, 8, 6]
     = Inr [c, e, b, g, d, j, a, i, h, f]"
  by (simp add: permute_def py_index_def)

lemma permute_P8:
  "permute [a, b, c, d, e, f, g, h, i, j] [6, 3, 7, 4, 8, 5, 10, 9]
     = Inr [f, c, g, d, h, e, j, i]"
  by (simp add: permute_def py_index_def)

lemma slice5_10:
  "slice_to [a, b, c, d, e, f, g, h, i, j] 5 = [a, b, c, d, e]"
  "slice_from [a, b, c, d, e, f, g, h, i, j] 5 = [f, g, h, i, j]"
  by (simp_all add: slice_to_def slice_from_def slice_pos_def)

lemma left_shift5:
  "left_shift [a, b, c, d, e] 1 = [b, c, d, e, a]"
  "left_shift [a, b, c, d, e] 2 = [c, d, e, a, b]"
  by (simp_all add: left_shift_def slice_to_def slice_from_def slice_pos_def)

lemma generate_keys10:
  assumes "key self = [a, b, c, d, e, f, g, h, i, j]"
    "P10 self = [3, 5, 2, 7, 4, 10, 1, 9, 8, 6]" "P8 self = [6, 3, 7, 4, 8, 5, 10, 9]"
  shows "generate_keys self = Inr ([a, g, i, d, h, c, j, f], [h, c, f, e, j, b, i, a])"
  unfolding generate_keys_def assms
  by (simp add: permute_P10 slice5_10 left_shift5 permute_P8)

lemma init_Inr:
  assumes "init k = Inr self"
  shows "std_tables self" "key self = k" "generate_keys self = Inr (K1 self, K2 self)"
proof -
  let ?s0 = "\<lparr> key = k,
                   P10 = [3, 5, 2, 7, 4, 10, 1, 9, 8, 6],
                   P8 = [6, 3, 7, 4, 8, 5, 10, 9],
                   IP = [2, 6, 3, 1, 4, 8, 5, 7],
                   IP_INV = [4, 1, 3, 5, 7, 2, 8, 6],
                   EP = [4, 1, 2, 3, 2, 3, 4, 1],
                   P4 = [2, 4, 3, 1],
                   S0 = [[1, 0, 3, 2], [3, 2, 1, 0], [0, 2, 1, 3], [3, 1, 3, 2]],
                   S1 = [[0, 1, 2, 3], [2, 0, 1, 3], [3, 0, 1, 0], [2, 1, 0, 3]],
                   K1 = [], K2 = [] \<rparr>"
  from assms obtain k1 k2 where g: "generate_keys ?s0 = Inr (k1, k2)"
    and s: "self = ?s0\<lparr>K1 := k1, K2 := k2\<rparr>"
    by (cases "generate_keys ?s0") (auto simp add: init_def Let_def)
  show "std_tables self" by (simp add: s std_tables_def)
  show "key self = k" by (simp add: s)
  have "generate_keys self = generate_keys ?s0"
    unfolding s by (rule generate_keys_update)
  with g show "generate_keys self = Inr (K1 self, K2 self)" by (simp add: s)
qed

lemma init_total:
  assumes "length k = 10"
  shows "\<exists>self. init k = Inr self"
proof -
  from length10E[OF assms] obtain a b c d e f g h i j
    where k: "k = [a, b, c, d, e, f, g, h, i, j]"
    by (elim exE)
  show ?thesis unfolding init_def Let_def k
    by (simp add: generate_keys10)
qed

lemma subkeys10:
  assumes "init [a, b, c, d, e, f, g, h, i, j] = Inr self"
  shows "K1 self = [a, g, i, d, h, c, j, f]" "K2 self = [h, c, f, e, j, b, i, a]"
proof -
  from init_Inr[OF assms] have "generate_keys self = Inr (K1 self, K2 self)"
    "key self = [a, b, c, d, e, f, g, h, i, j]" "std_tables self" by simp_all
  moreover from this have "generate_keys self = Inr ([a, g, i, d, h, c, j, f], [h, c, f, e, j, b, i, a])"
    by (intro generate_keys10) (simp_all add: std_tables_def)
  ultimately show "K1 self = [a, g, i, d, h, c, j, f]" "K2 self = [h, c, f, e, j, b, i, a]"
    by simp_all
qed

lemma init_wf:
  assumes "wf_key k"
  shows "\<exists>self. init k = Inr self \<and> std_tables self \<and> wf_block (K1 self) \<and> wf_block (K2 self)"
proof -
  from assms have "length k = 10" by (simp add: wf_key_def)
  from length10E[OF this] obtain a b c d e f g h i j
    where k: "k = [a, b, c, d, e, f, g, h, i, j]"
    by (elim exE)
  from assms init_total obtain self where s: "init k = Inr self"
    unfolding wf_key_def by blast
  from subkeys10[OF s[unfolded k]] assms
  have "wf_block (K1 self)" "wf_block (K2 self)"
    by (simp_all add: k wf_key_def wf_block_def is_bits_def)
  with s init_Inr(1)[OF s] show ?thesis by blast
qed

lemma init_example: "init [1, 0, 1, 0, 0, 0, 0, 0, 1, 0] = Inr example_instance"
  unfolding init_def Let_def example_instance_def
  by (simp add: generate_keys10)

lemma rotate5:
  "rotate 1 [a, b, c, d, e] = [b, c, d, e, a]"
  "rotate 2 [a, b, c, d, e] = [c, d, e, a, b]"
  "rotate 3 [a, b, c, d, e] = [d, e, a, b, c]"
  by (simp_all add: rotate_drop_take)

lemma golden_vector:
  "encrypt example_instance [1, 1, 0, 1, 0, 1, 1, 1] = Inr [1, 0, 1, 0, 1, 0, 0, 0]"
  "decrypt example_instance [1, 0, 1, 0, 1, 0, 0, 0] = Inr [1, 1, 0, 1, 0, 1, 1, 1]"
  by code_simp+

subsection \<open>Results of the error monad and of \<open>permute\<close>\<close>

lemma err_bind_Inr: "err_bind m f = Inr y \<longleftrightarrow> (\<exists>x. m = Inr x \<and> f x = Inr y)"
  by (cases m) simp_all

lemma permute_length: "permute xs tbl = Inr ys \<Longrightarrow> length ys = length tbl"
  unfolding permute_def
proof (induction tbl arbitrary: ys)
  case Nil
  then show ?case by simp
next
  case (Cons t tbl)
  then show ?case
    by (cases "py_index xs (t - 1)"; cases "map_err (\<lambda>i. py_index xs (i - 1)) tbl") auto
qed

lemma feistel_length:
  assumes "std_tables self" "feistel self h k = Inr f"
  shows "length f = 4"
proof -
  from assms(1) have p4: "P4 self = [2, 4, 3, 1]" by (simp add: std_tables_def)
  from assms(2) obtain xs where "permute xs (P4 self) = Inr f"
    unfolding feistel_def Let_def err_bind_Inr by blast
  from permute_length[OF this] p4 show ?thesis by simp
qed

lemma permute_Nil: "permute xs [] = Inr []"
  by (simp add: permute_def)

lemma permute_Cons:
  "permute xs (t # tbl) =
     err_bind (py_index xs (t - 1)) (\<lambda>y. err_bind (permute xs tbl) (\<lambda>ys. Inr (y # ys)))"
  by (simp add: permute_def)

lemma permute_in_range:
  "in_range source table \<Longrightarrow>
     permute source table = Inr (map (\<lambda>t. source ! nat (t - 1)) table)"
proof (induction table)
  case Nil
  then show ?case by (simp add: permute_Nil)
next
  case (Cons t table)
  then have "py_index source (t - 1) = Inr (source ! nat (t - 1))" "in_range source table"
    by (simp_all add: in_range_def py_index_in)
  with Cons.IH show ?case by (simp add: permute_Cons)
qed

lemma identity_table: "map (\<lambda>t. xs ! nat (t - 1)) (map int [1..<Suc (length xs)]) = xs"
proof -
  have "[1..<Suc (length xs)] = map Suc [0..<length xs]"
    by (simp add: map_Suc_upt)
  then have "map (\<lambda>t. xs ! nat (t - 1)) (map int [1..<Suc (length xs)])
               = map (\<lambda>i. xs ! i) [0..<length xs]"
    by (simp add: comp_def)
  then show ?thesis by (simp add: map_nth)
qed

subsection \<open>The methods on the store\<close>

lemma reads_ret: "reads (ret x) h (Inr x)" by (simp add: reads_def ret_def)
lemma reads_lift: "reads (lift r) h r" by (simp add: reads_def lift_def)
lemma reads_get: "reads (get_attr self sel) h (Inr (sel (h self)))"
  by (simp add: reads_def get_attr_def)
lemma reads_bind:
  assumes "reads m h r" "\<And>x. r = Inr x \<Longrightarrow> reads (f x) h (g x)"
  shows "reads (bind_st m f) h (err_bind r g)"
  using assms by (cases r) (simp_all add: reads_def bind_st_def)
lemma reads_bind_get:
  assumes "reads (f (sel (h self))) h r"
  shows "reads (bind_st (get_attr self sel) f) h r"
  using assms by (simp add: reads_def bind_st_def get_attr_def)
lemma reads_bind_ret:
  assumes "reads (f x) h r"
  shows "reads (bind_st (ret x) f) h r"
  using assms by (simp add: reads_def bind_st_def ret_def)

lemma permute_st_reads: "reads (permute_st self xs tbl) h (permute xs tbl)"
  by (simp add: permute_st_def permute_def reads_lift)

lemma sbox_st_reads: "reads (sbox_st self half tbl) h (sbox half tbl)"
  unfolding sbox_st_def sbox_def Let_def
  by (intro reads_bind reads_lift)

lemma feistel_st_reads: "reads (feistel_st self half subkey) h (feistel (h self) half subkey)"
  unfolding feistel_st_def feistel_def Let_def
  by (intro reads_bind_get reads_bind reads_lift permute_st_reads sbox_st_reads)

lemma encrypt_st_reads: "reads (encrypt_st self p) h (encrypt (h self) p)"
  unfolding encrypt_st_def encrypt_def Let_def
  by (intro reads_bind_get reads_bind reads_lift permute_st_reads feistel_st_reads)

lemma decrypt_st_reads: "reads (decrypt_st self p) h (decrypt (h self) p)"
  unfolding decrypt_st_def decrypt_def Let_def
  by (intro reads_bind_get reads_bind reads_lift permute_st_reads feistel_st_reads)

lemma generate_keys_st_reads: "reads (generate_keys_st self) h (generate_keys (h self))"
  unfolding generate_keys_st_def generate_keys_def Let_def left_shift_st_def left_shift_def
  by (intro reads_bind_get reads_bind_ret reads_bind reads_ret permute_st_reads)


lemma bind_set_attr:
  "bind_st (set_attr self upd) f h = f () (h(self := upd (h self)))"
  by (simp add: bind_st_def set_attr_def)

lemma generate_keys_cong:
  "key s = key s' \<Longrightarrow> P10 s = P10 s' \<Longrightarrow> P8 s = P8 s' \<Longrightarrow> generate_keys s = generate_keys s'"
  by (simp add: generate_keys_def)

lemma init_st_eq:
  "init_st self k h =
     (let obj = (h self)\<lparr> key := k,
                   P10 := [3, 5, 2, 7, 4, 10, 1, 9, 8, 6],
                   P8 := [6, 3, 7, 4, 8, 5, 10, 9],
                   IP := [2, 6, 3, 1, 4, 8, 5, 7],
                   IP_INV := [4, 1, 3, 5, 7, 2, 8, 6],
                   EP := [4, 1, 2, 3, 2, 3, 4, 1],
                   P4 := [2, 4, 3, 1],
                   S0 := [[1, 0, 3, 2], [3, 2, 1, 0], [0, 2, 1, 3], [3, 1, 3, 2]],
                   S1 := [[0, 1, 2, 3], [2, 0, 1, 3], [3, 0, 1, 0], [2, 1, 0, 3]] \<rparr>
      in case generate_keys obj of
           Inl e \<Rightarrow> (Inl e, h(self := obj))
         | Inr (k1, k2) \<Rightarrow> (Inr (), h(self := obj\<lparr>K1 := k1, K2 := k2\<rparr>)))"
proof -
  let ?obj = "(h self)\<lparr> key := k,
                   P10 := [3, 5, 2, 7, 4, 10, 1, 9, 8, 6],
                   P8 := [6, 3, 7, 4, 8, 5, 10, 9],
                   IP := [2, 6, 3, 1, 4, 8, 5, 7],
                   IP_INV := [4, 1, 3, 5, 7, 2, 8, 6],
                   EP := [4, 1, 2, 3, 2, 3, 4, 1],
                   P4 := [2, 4, 3, 1],
                   S0 := [[1, 0, 3, 2], [3, 2, 1, 0], [0, 2, 1, 3], [3, 1, 3, 2]],
                   S1 := [[0, 1, 2, 3], [2, 0, 1, 3], [3, 0, 1, 0], [2, 1, 0, 3]] \<rparr>"
  from generate_keys_st_reads[of self "h(self := ?obj)"]
  have g: "generate_keys_st self (h(self := ?obj)) = (generate_keys ?obj, h(self := ?obj))"
    by (simp add: reads_def)
  show ?thesis
    unfolding init_st_def Let_def
    by (simp add: bind_set_attr, simp add: bind_st_def g set_attr_def split: sum.splits prod.splits)
qed

lemma init_st_Inr:
  "init_st self k h = (Inr (), h') \<longleftrightarrow> (\<exists>s. init k = Inr s \<and> h' = h(self := s))"
proof -
  let ?obj = "(h self)\<lparr> key := k,
                   P10 := [3, 5, 2, 7, 4, 10, 1, 9, 8, 6],
                   P8 := [6, 3, 7, 4, 8, 5, 10, 9],
                   IP := [2, 6, 3, 1, 4, 8, 5, 7],
                   IP_INV := [4, 1, 3, 5, 7, 2, 8, 6],
                   EP := [4, 1, 2, 3, 2, 3, 4, 1],
                   P4 := [2, 4, 3, 1],
                   S0 := [[1, 0, 3, 2], [3, 2, 1, 0], [0, 2, 1, 3], [3, 1, 3, 2]],
                   S1 := [[0, 1, 2, 3], [2, 0, 1, 3], [3, 0, 1, 0], [2, 1, 0, 3]] \<rparr>"
  let ?s0 = "\<lparr> key = k,
                   P10 = [3, 5, 2, 7, 4, 10, 1, 9, 8, 6],
                   P8 = [6, 3, 7, 4, 8, 5, 10, 9],
                   IP = [2, 6, 3, 1, 4, 8, 5, 7],
                   IP_INV = [4, 1, 3, 5, 7, 2, 8, 6],
                   EP = [4, 1, 2, 3, 2, 3, 4, 1],
                   P4 = [2, 4, 3, 1],
                   S0 = [[1, 0, 3, 2], [3, 2, 1, 0], [0, 2, 1, 3], [3, 1, 3, 2]],
                   S1 = [[0, 1, 2, 3], [2, 0, 1, 3], [3, 0, 1, 0], [2, 1, 0, 3]],
                   K1 = [], K2 = [] \<rparr>"
  have g: "generate_keys ?obj = generate_keys ?s0"
    by (rule generate_keys_cong) simp_all
  have u: "?obj\<lparr>K1 := k1, K2 := k2\<rparr> = ?s0\<lparr>K1 := k1, K2 := k2\<rparr>" for k1 k2
    by (cases "h self") simp
  show ?thesis
    unfolding init_st_eq init_def Let_def g
    by (cases "generate_keys ?s0") (auto simp add: u fun_upd_eqD)
qed

section \<open>The properties of the specification\<close>

subsection \<open>Round trip\<close>

text \<open>
  C1. For every well-formed 10-bit key \<open>k\<close> and every well-formed 8-bit block \<open>p\<close>, the
  constructor returns an instance on \<open>k\<close>, \<open>encrypt\<close> returns a ciphertext for \<open>p\<close>, and
  \<open>decrypt\<close> of that ciphertext returns \<open>p\<close>.
\<close>

theorem roundtrip_decrypt_after_encrypt:
  assumes "wf_key k" "wf_block p"
  shows "\<exists>self c. init k = Inr self \<and> encrypt self p = Inr c \<and> decrypt self c = Inr p"
proof -
  from init_wf[OF assms(1)] obtain self where
    s: "init k = Inr self" "std_tables self" "wf_block (K1 self)" "wf_block (K2 self)"
    by blast
  from two_rounds_inverse[OF s(2) s(3) s(4) assms(2)] s(1) show ?thesis
    by (auto simp add: encrypt_two_rounds decrypt_two_rounds)
qed

theorem roundtrip_decrypt_after_encrypt_witness:
  "wf_key [1, 0, 1, 0, 0, 0, 0, 0, 1, 0] \<and> wf_block [1, 1, 0, 1, 0, 1, 1, 1] \<and>
   (\<exists>self c. init [1, 0, 1, 0, 0, 0, 0, 0, 1, 0] = Inr self \<and>
      encrypt self [1, 1, 0, 1, 0, 1, 1, 1] = Inr c \<and> decrypt self c = Inr [1, 1, 0, 1, 0, 1, 1, 1])"
proof -
  have k: "wf_key [1, 0, 1, 0, 0, 0, 0, 0, 1, 0]" by (simp add: wf_key_def is_bits_def)
  have p: "wf_block [1, 1, 0, 1, 0, 1, 1, 1]" by (simp add: wf_block_def is_bits_def)
  from k p roundtrip_decrypt_after_encrypt[OF k p] show ?thesis by simp
qed

subsection \<open>Key schedule\<close>

text \<open>
  C2. For every key of 10 elements the constructor succeeds and \<open>generate_keys\<close> returns the
  two subkeys it stores: \<open>K1\<close> is \<open>P8\<close> applied to the two 5-element halves of
  \<open>permute key P10\<close>, each rotated left by 1; \<open>K2\<close> is \<open>P8\<close> applied to those rotated halves
  rotated left by 2 more, which is a rotation by 3 of the halves of the \<open>P10\<close> output.
  (On the key of the usage example a rotation by 2 of the halves of the \<open>P10\<close> output
  would give another \<open>K2\<close>: the last line of the witness.)
\<close>

theorem generate_keys_schedule:
  assumes "length k = 10"
  shows "\<exists>self p. init k = Inr self \<and> generate_keys self = Inr (K1 self, K2 self) \<and>
           permute k (P10 self) = Inr p \<and>
           (let left0 = take 5 p; right0 = drop 5 p;
                left1 = rotate 1 left0; right1 = rotate 1 right0;
                left2 = rotate 2 left1; right2 = rotate 2 right1
            in permute (left1 @ right1) (P8 self) = Inr (K1 self) \<and>
               permute (left2 @ right2) (P8 self) = Inr (K2 self) \<and>
               left2 = rotate 3 left0 \<and> right2 = rotate 3 right0)"
proof -
  from length10E[OF assms] obtain a b c d e f g h i j
    where k: "k = [a, b, c, d, e, f, g, h, i, j]" by (elim exE)
  from init_total[OF assms] obtain self where s: "init k = Inr self" by blast
  from init_Inr[OF s] have st: "std_tables self"
    and gk: "generate_keys self = Inr (K1 self, K2 self)" by simp_all
  from st have t: "P10 self = [3, 5, 2, 7, 4, 10, 1, 9, 8, 6]" "P8 self = [6, 3, 7, 4, 8, 5, 10, 9]"
    by (simp_all add: std_tables_def)
  note sk = subkeys10[OF s[unfolded k]]
  have "permute k (P10 self) = Inr [c, e, b, g, d, j, a, i, h, f] \<and>
           (let left0 = take 5 [c, e, b, g, d, j, a, i, h, f];
                right0 = drop 5 [c, e, b, g, d, j, a, i, h, f];
                left1 = rotate 1 left0; right1 = rotate 1 right0;
                left2 = rotate 2 left1; right2 = rotate 2 right1
            in permute (left1 @ right1) (P8 self) = Inr (K1 self) \<and>
               permute (left2 @ right2) (P8 self) = Inr (K2 self) \<and>
               left2 = rotate 3 left0 \<and> right2 = rotate 3 right0)"
    unfolding k t sk by (simp add: permute_P10 rotate5 permute_P8)
  with s gk show ?thesis by blast
qed

theorem generate_keys_schedule_witness:
  "length [1, 0, 1, 0, 0, 0, 0, 0, 1, 0 :: int] = 10 \<and>
   init [1, 0, 1, 0, 0, 0, 0, 0, 1, 0] = Inr example_instance \<and>
   generate_keys example_instance = Inr ([1, 0, 1, 0, 0, 1, 0, 0], [0, 1, 0, 0, 0, 0, 1, 1]) \<and>
   permute [1, 0, 1, 0, 0, 0, 0, 0, 1, 0 :: int] (P10 example_instance)
     = Inr [1, 0, 0, 0, 0, 0, 1, 1, 0, 0] \<and>
   permute (rotate 1 [1, 0, 0, 0, 0 :: int] @ rotate 1 [0, 1, 1, 0, 0]) (P8 example_instance)
     = Inr [1, 0, 1, 0, 0, 1, 0, 0] \<and>
   permute (rotate 3 [1, 0, 0, 0, 0 :: int] @ rotate 3 [0, 1, 1, 0, 0]) (P8 example_instance)
     = Inr [0, 1, 0, 0, 0, 0, 1, 1] \<and>
   permute (rotate 2 [1, 0, 0, 0, 0 :: int] @ rotate 2 [0, 1, 1, 0, 0]) (P8 example_instance)
     = Inr [1, 0, 0, 1, 0, 0, 1, 0]"
proof -
  have h: "length [1, 0, 1, 0, 0, 0, 0, 0, 1, 0 :: int] = 10" by simp
  from generate_keys_schedule[OF h] obtain self p where
    s: "init [1, 0, 1, 0, 0, 0, 0, 0, 1, 0] = Inr self"
    and g: "generate_keys self = Inr (K1 self, K2 self)"
    and p: "permute [1, 0, 1, 0, 0, 0, 0, 0, 1, 0] (P10 self) = Inr p"
    and k1: "permute (rotate 1 (take 5 p) @ rotate 1 (drop 5 p)) (P8 self) = Inr (K1 self)"
    and k2: "permute (rotate 3 (take 5 p) @ rotate 3 (drop 5 p)) (P8 self) = Inr (K2 self)"
    unfolding Let_def by metis
  from s have e: "self = example_instance" by (simp add: init_example)
  have t: "P10 example_instance = [3, 5, 2, 7, 4, 10, 1, 9, 8, 6]"
    "P8 example_instance = [6, 3, 7, 4, 8, 5, 10, 9]"
    "K1 example_instance = [1, 0, 1, 0, 0, 1, 0, 0]"
    "K2 example_instance = [0, 1, 0, 0, 0, 0, 1, 1]"
    by (simp_all add: example_instance_def)
  from p have pv: "p = [1, 0, 0, 0, 0, 0, 1, 1, 0, 0]"
    unfolding e t by (simp add: permute_P10)
  have ind: "permute (rotate 2 [1, 0, 0, 0, 0 :: int] @ rotate 2 [0, 1, 1, 0, 0])
               (P8 example_instance) = Inr [1, 0, 0, 1, 0, 0, 1, 0]"
    unfolding t by (simp add: rotate5 permute_P8)
  from g p k1 k2 ind show ?thesis
    unfolding e pv by (simp add: init_example t)
qed

subsection \<open>Encryption as two Feistel rounds\<close>

text \<open>
  C3. On an instance the constructor returned and for every well-formed 8-bit plaintext,
  \<open>encrypt\<close> is the two-round reference \<open>encrypt_spec\<close>: \<open>L0\<close>, \<open>R0\<close> are the halves of
  \<open>permute plaintext IP\<close>; round 1 gives left \<open>R0\<close> and right \<open>L0 XOR feistel R0 K1\<close>;
  round 2 gives \<open>newLeft = R0 XOR feistel right K2\<close> and leaves right as it is; the output
  is \<open>permute (newLeft @ right) IP_INV\<close>.
\<close>

theorem encrypt_is_two_round_feistel:
  assumes "init k = Inr self" "wf_block plaintext"
  shows "encrypt self plaintext = encrypt_spec self plaintext"
proof -
  from init_Inr(1)[OF assms(1)] have st: "std_tables self" .
  then have ip: "IP self = [2, 6, 3, 1, 4, 8, 5, 7]" by (simp add: std_tables_def)
  from assms(2) have "length plaintext = 8" by (simp add: wf_block_def)
  from length8E[OF this] obtain p1 p2 p3 p4 p5 p6 p7 p8
    where pe: "plaintext = [p1, p2, p3, p4, p5, p6, p7, p8]" by (elim exE)
  show ?thesis
  proof (cases "feistel self [p4, p8, p5, p7] (K1 self)")
    case (Inl e)
    then show ?thesis
      unfolding encrypt_def encrypt_spec_def pe ip
      by (simp add: permute_IP8 slice4_8)
  next
    case (Inr f)
    from length4E[OF feistel_length[OF st Inr]] obtain f1 f2 f3 f4
      where f: "f = [f1, f2, f3, f4]" by (elim exE)
    show ?thesis
    proof (cases "feistel self [p2 XOR f1, p6 XOR f2, p3 XOR f3, p1 XOR f4] (K2 self)")
      case (Inl e)
      with Inr f show ?thesis
        unfolding encrypt_def encrypt_spec_def pe ip
        by (simp add: permute_IP8 slice4_8 xor_enum4)
    next
      case g: (Inr g)
      from length4E[OF feistel_length[OF st g]] obtain g1 g2 g3 g4
        where ge: "g = [g1, g2, g3, g4]" by (elim exE)
      from Inr f g ge show ?thesis
        unfolding encrypt_def encrypt_spec_def pe ip
        by (simp add: permute_IP8 slice4_8 xor_enum4)
    qed
  qed
qed

theorem encrypt_is_two_round_feistel_witness:
  "init [1, 0, 1, 0, 0, 0, 0, 0, 1, 0] = Inr example_instance \<and>
   wf_block [1, 1, 0, 1, 0, 1, 1, 1] \<and>
   encrypt example_instance [1, 1, 0, 1, 0, 1, 1, 1] =
     encrypt_spec example_instance [1, 1, 0, 1, 0, 1, 1, 1] \<and>
   encrypt example_instance [1, 1, 0, 1, 0, 1, 1, 1] = Inr [1, 0, 1, 0, 1, 0, 0, 0]"
proof -
  have p: "wf_block [1, 1, 0, 1, 0, 1, 1, 1]" by (simp add: wf_block_def is_bits_def)
  have v: "encrypt_spec example_instance [1, 1, 0, 1, 0, 1, 1, 1] = Inr [1, 0, 1, 0, 1, 0, 0, 0]"
    by code_simp
  from encrypt_is_two_round_feistel[OF init_example p] init_example p v show ?thesis by simp
qed

subsection \<open>The round function\<close>

text \<open>
  C4. On an instance the constructor returned, for every half of 4 elements and every
  subkey of 8 elements, \<open>feistel\<close> is \<open>feistel_spec\<close>: \<open>P4\<close> applied to
  \<open>sbox l4 S0 @ sbox r4 S1\<close>, where \<open>l4\<close> and \<open>r4\<close> are the first and the last 4 elements
  of the pointwise exclusive or of \<open>permute half EP\<close> with the subkey. The table \<open>EP\<close> is
  \<open>[4, 1, 2, 3, 2, 3, 4, 1]\<close>: 8 entries, each of the positions 1 to 4 exactly twice.
\<close>

theorem feistel_is_expand_mix_substitute:
  assumes "init k = Inr self" "length half = 4" "length subkey = 8"
  shows "feistel self half subkey = feistel_spec self half subkey \<and>
         EP self = [4, 1, 2, 3, 2, 3, 4, 1] \<and>
         count_list (EP self) 1 = 2 \<and> count_list (EP self) 2 = 2 \<and>
         count_list (EP self) 3 = 2 \<and> count_list (EP self) 4 = 2 \<and>
         length (EP self) = 8"
proof -
  from init_Inr(1)[OF assms(1)] have st: "std_tables self" .
  then have ep: "EP self = [4, 1, 2, 3, 2, 3, 4, 1]" by (simp add: std_tables_def)
  from length4E[OF assms(2)] obtain a b c d where h: "half = [a, b, c, d]" by (elim exE)
  from length8E[OF assms(3)] obtain k1 k2 k3 k4 k5 k6 k7 k8
    where s: "subkey = [k1, k2, k3, k4, k5, k6, k7, k8]" by (elim exE)
  have "feistel self half subkey = feistel_spec self half subkey"
    unfolding h s feistel_explicit[OF st] feistel_spec_def ep
    by (simp add: permute_EP4)
  then show ?thesis by (simp add: ep)
qed

theorem feistel_is_expand_mix_substitute_witness:
  "init [1, 0, 1, 0, 0, 0, 0, 0, 1, 0] = Inr example_instance \<and>
   length [0, 1, 1, 1 :: int] = 4 \<and> length [1, 0, 1, 0, 0, 1, 0, 0 :: int] = 8 \<and>
   feistel example_instance [0, 1, 1, 1] [1, 0, 1, 0, 0, 1, 0, 0] =
     feistel_spec example_instance [0, 1, 1, 1] [1, 0, 1, 0, 0, 1, 0, 0] \<and>
   feistel example_instance [0, 1, 1, 1] [1, 0, 1, 0, 0, 1, 0, 0] = Inr [1, 0, 0, 1]"
proof -
  have h: "length [0, 1, 1, 1 :: int] = 4" "length [1, 0, 1, 0, 0, 1, 0, 0 :: int] = 8"
    by simp_all
  have v: "feistel_spec example_instance [0, 1, 1, 1] [1, 0, 1, 0, 0, 1, 0, 0] = Inr [1, 0, 0, 1]"
    by code_simp
  from feistel_is_expand_mix_substitute[OF init_example h] init_example h v
  show ?thesis by simp
qed

subsection \<open>The substitution function\<close>

text \<open>
  C5. For every input of 4 elements, each 0 or 1, and every 4 by 4 table of values 0 to 3,
  the row \<open>2 * half[0] + half[3]\<close> and the column \<open>2 * half[1] + half[2]\<close> lie in 0 to 3,
  neither subscript raises, and \<open>sbox\<close> returns the entry \<open>v\<close> at that row and column as
  its two binary digits, most significant first: a list of exactly 2 elements, each 0 or 1.
\<close>

theorem sbox_lookup_bits:
  assumes "length half = 4" "is_bits half" "wf_sbox tbl"
  shows "let row = 2 * half ! 0 + half ! 3; col = 2 * half ! 1 + half ! 2;
             v = tbl ! nat row ! nat col
         in 0 \<le> row \<and> row \<le> 3 \<and> 0 \<le> col \<and> col \<le> 3 \<and>
            py_index tbl row = Inr (tbl ! nat row) \<and>
            py_index (tbl ! nat row) col = Inr v \<and>
            sbox half tbl = Inr [v div 2, v mod 2] \<and>
            2 * (v div 2) + v mod 2 = v \<and>
            length [v div 2, v mod 2] = 2 \<and> is_bits [v div 2, v mod 2]"
proof -
  from length4E[OF assms(1)] obtain a b c d where h: "half = [a, b, c, d]" by (elim exE)
  from assms(2) have b: "is_bits [a, b, c, d]" by (simp add: h)
  then have r: "0 \<le> 2 * a + d" "2 * a + d \<le> 3" "0 \<le> 2 * b + c" "2 * b + c \<le> 3"
    by (auto simp add: bits4)
  let ?v = "tbl ! nat (2 * a + d) ! nat (2 * b + c)"
  note e = wf_sbox_entry[OF assms(3) r]
  from e(2,3) have "?v = 0 \<or> ?v = 1 \<or> ?v = 2 \<or> ?v = 3" by arith
  then have vb: "is_bits [?v div 2, ?v mod 2]"
    by (elim disjE) (simp_all add: is_bits_def)
  from assms(3) r have i1: "py_index tbl (2 * a + d) = Inr (tbl ! nat (2 * a + d))"
    by (simp add: py_index_in wf_sbox_def)
  from e(1) r have i2: "py_index (tbl ! nat (2 * a + d)) (2 * b + c) = Inr ?v"
    by (simp add: py_index_in)
  from r i1 i2 vb sbox_bits4[OF b assms(3)] show ?thesis
    unfolding h Let_def by simp
qed

theorem sbox_lookup_bits_witness:
  "length [1, 0, 1, 1 :: int] = 4 \<and> is_bits [1, 0, 1, 1] \<and>
   wf_sbox [[1, 0, 3, 2], [3, 2, 1, 0], [0, 2, 1, 3], [3, 1, 3, 2]] \<and>
   sbox [1, 0, 1, 1] [[1, 0, 3, 2], [3, 2, 1, 0], [0, 2, 1, 3], [3, 1, 3, 2]] = Inr [0, 1]"
proof -
  have h: "length [1, 0, 1, 1 :: int] = 4" "is_bits [1, 0, 1, 1]"
    "wf_sbox [[1, 0, 3, 2], [3, 2, 1, 0], [0, 2, 1, 3], [3, 1, 3, 2]]"
    by (simp_all add: is_bits_def wf_sbox_def)
  from h sbox_lookup_bits[OF h] show ?thesis by (simp add: Let_def)
qed

subsection \<open>The permutation engine\<close>

text \<open>
  C6. When every entry \<open>t\<close> of the table satisfies \<open>1 \<le> t \<le> n\<close>, for \<open>n\<close> the length of
  the source, \<open>permute\<close> returns a list as long as the table whose \<open>j\<close>-th element is
  \<open>source[table[j] - 1]\<close>. On the identity table \<open>[1..n]\<close> it returns the source, and on
  the reversing table \<open>[n..1]\<close> the source reversed.
\<close>

theorem permute_contract:
  "(in_range source table \<longrightarrow>
      permute source table = Inr (map (\<lambda>t. source ! nat (t - 1)) table) \<and>
      (\<exists>r. permute source table = Inr r \<and> length r = length table \<and>
           (\<forall>j<length table. r ! j = source ! nat (table ! j - 1)))) \<and>
   permute source (map int [1..<Suc (length source)]) = Inr source \<and>
   permute source (rev (map int [1..<Suc (length source)])) = Inr (rev source)"
proof (intro conjI impI)
  assume "in_range source table"
  from permute_in_range[OF this]
  show "permute source table = Inr (map (\<lambda>t. source ! nat (t - 1)) table)"
    and "\<exists>r. permute source table = Inr r \<and> length r = length table \<and>
           (\<forall>j<length table. r ! j = source ! nat (table ! j - 1))"
    by simp_all
next
  let ?id = "map int [1..<Suc (length source)]"
  have r: "in_range source ?id" by (auto simp add: in_range_def list_all_iff)
  from permute_in_range[OF r] show "permute source ?id = Inr source"
    by (simp only: identity_table)
  have "in_range source (rev ?id)" using r by (simp add: in_range_def)
  from permute_in_range[OF this]
  have "permute source (rev ?id) = Inr (rev (map (\<lambda>t. source ! nat (t - 1)) ?id))"
    by (simp only: rev_map)
  then show "permute source (rev ?id) = Inr (rev source)"
    by (simp only: identity_table)
qed

theorem permute_contract_witness:
  "in_range [1, 0, 0, 1 :: int] [2, 4, 3, 1] \<and>
   permute [1, 0, 0, 1 :: int] [2, 4, 3, 1] = Inr [0, 1, 0, 1]"
proof -
  have h: "in_range [1, 0, 0, 1 :: int] [2, 4, 3, 1]" by (simp add: in_range_def)
  from permute_contract[of "[1, 0, 0, 1 :: int]" "[2, 4, 3, 1]"] h show ?thesis by simp
qed

text \<open>
  C7, as amended. \<open>permute\<close> raises IndexError exactly when some table entry \<open>t\<close> is
  greater than \<open>n\<close> or less than \<open>1 - n\<close>, for \<open>n\<close> the length of the source. An entry
  from \<open>1 - n\<close> to 0 does not fail: the subscript \<open>t - 1\<close> is negative and reads
  \<open>source[n + t - 1]\<close>, counted from the end.
\<close>

theorem permute_fails_iff:
  "(permute source table = Inl IndexError \<longleftrightarrow> \<not> in_wrap_range source table) \<and>
   (in_wrap_range source table \<longrightarrow>
      permute source table =
        Inr (map (\<lambda>t. if 1 \<le> t then source ! nat (t - 1)
                       else source ! nat (int (length source) + t - 1)) table))"
proof (induction table)
  case Nil
  then show ?case by (simp add: permute_Nil in_wrap_range_def)
next
  case (Cons t table)
  show ?case
  proof (cases "1 - int (length source) \<le> t \<and> t \<le> int (length source)")
    case True
    then have "py_index source (t - 1) =
       Inr (if 1 \<le> t then source ! nat (t - 1) else source ! nat (int (length source) + t - 1))"
      by (auto simp add: py_index_def Let_def algebra_simps)
    with True Cons.IH show ?thesis
      by (cases "permute source table") (auto simp add: permute_Cons in_wrap_range_def)
  next
    case False
    then have "py_index source (t - 1) = Inl IndexError"
      by (auto simp add: py_index_def Let_def)
    with False show ?thesis by (auto simp add: permute_Cons in_wrap_range_def)
  qed
qed

theorem permute_fails_iff_witness:
  "in_wrap_range [0, 0, 1 :: int] [0, -2, 3] \<and>
   permute [0, 0, 1 :: int] [0, -2, 3] \<noteq> Inl IndexError \<and>
   permute [0, 0, 1 :: int] [0, -2, 3] = Inr [1, 0, 1] \<and>
   \<not> in_wrap_range [0, 0, 1 :: int] [4] \<and> permute [0, 0, 1 :: int] [4] = Inl IndexError \<and>
   \<not> in_wrap_range [0, 0, 1 :: int] [-3] \<and> permute [0, 0, 1 :: int] [-3] = Inl IndexError"
proof -
  have h: "in_wrap_range [0, 0, 1 :: int] [0, -2, 3]" "\<not> in_wrap_range [0, 0, 1 :: int] [4]"
    "\<not> in_wrap_range [0, 0, 1 :: int] [-3]"
    by (simp_all add: in_wrap_range_def)
  from h permute_fails_iff[of "[0, 0, 1 :: int]" "[0, -2, 3]"]
    permute_fails_iff[of "[0, 0, 1 :: int]" "[4]"] permute_fails_iff[of "[0, 0, 1 :: int]" "[-3]"]
  show ?thesis by simp
qed

text \<open>
  C7, as stated, fails: the table \<open>[0]\<close> has an entry less than 1, and \<open>permute\<close> on a
  source of 3 elements returns the last of them instead of raising.
\<close>

theorem permute_wraps_counterexample:
  "\<not> in_range [0, 0, 1 :: int] [0] \<and> permute [0, 0, 1 :: int] [0] = Inr [1]"
  by (simp add: in_range_def permute_def py_index_def)

subsection \<open>Determinism\<close>

text \<open>
  C8. In any store, let two instances be constructed on the same key, one after the other,
  at the addresses \<open>a1\<close> and \<open>a2\<close>. Both objects are then the value \<open>s\<close> of \<open>init\<close> on the
  key, whatever the store held before, so they have the same \<open>K1\<close> and \<open>K2\<close>, and deriving
  the subkeys again on either returns them. Every call of \<open>encrypt\<close> and of \<open>decrypt\<close>, on
  either instance, returns what \<open>encrypt s\<close> and \<open>decrypt s\<close> give on the input and leaves
  the whole store as it was; so a call repeated after calls on the same or on the other
  instance returns the same result, and the two instances return the same ciphertext for
  the same plaintext.
\<close>

theorem deterministic:
  assumes "init_st a1 k h = (Inr (), h1)" "init_st a2 k h1 = (Inr (), h2)"
  shows "\<exists>s. init k = Inr s \<and> h2 a1 = s \<and> h2 a2 = s \<and>
           K1 (h2 a1) = K1 (h2 a2) \<and> K2 (h2 a1) = K2 (h2 a2) \<and>
           generate_keys_st a1 h2 = (Inr (K1 s, K2 s), h2) \<and>
           generate_keys_st a2 h2 = (Inr (K1 s, K2 s), h2) \<and>
           encrypt_st a1 p h2 = (encrypt s p, h2) \<and>
           encrypt_st a2 p h2 = (encrypt s p, h2) \<and>
           decrypt_st a1 c h2 = (decrypt s c, h2) \<and>
           decrypt_st a2 c h2 = (decrypt s c, h2) \<and>
           encrypt_st a1 p (snd (decrypt_st a2 c (snd (encrypt_st a1 p h2)))) = encrypt_st a1 p h2 \<and>
           decrypt_st a1 c (snd (encrypt_st a2 p (snd (decrypt_st a1 c h2)))) = decrypt_st a1 c h2"
proof -
  from assms(1) obtain s where s: "init k = Inr s" and h1: "h1 = h(a1 := s)"
    unfolding init_st_Inr by blast
  from assms(2) obtain s' where "init k = Inr s'" and h2: "h2 = h1(a2 := s')"
    unfolding init_st_Inr by blast
  with s have h2': "h2 = h1(a2 := s)" by simp
  have o1: "h2 a1 = s" and o2: "h2 a2 = s" by (simp_all add: h1 h2')
  have e1: "encrypt_st a1 p h2 = (encrypt s p, h2)"
    using encrypt_st_reads[of a1 p h2] by (simp add: reads_def o1)
  have e2: "encrypt_st a2 p h2 = (encrypt s p, h2)"
    using encrypt_st_reads[of a2 p h2] by (simp add: reads_def o2)
  have d1: "decrypt_st a1 c h2 = (decrypt s c, h2)"
    using decrypt_st_reads[of a1 c h2] by (simp add: reads_def o1)
  have d2: "decrypt_st a2 c h2 = (decrypt s c, h2)"
    using decrypt_st_reads[of a2 c h2] by (simp add: reads_def o2)
  have g1: "generate_keys_st a1 h2 = (Inr (K1 s, K2 s), h2)"
    using generate_keys_st_reads[of a1 h2] init_Inr(3)[OF s] by (simp add: reads_def o1)
  have g2: "generate_keys_st a2 h2 = (Inr (K1 s, K2 s), h2)"
    using generate_keys_st_reads[of a2 h2] init_Inr(3)[OF s] by (simp add: reads_def o2)
  from s o1 o2 e1 e2 d1 d2 g1 g2 show ?thesis by simp
qed

theorem deterministic_witness:
  "init_st 0 [1, 0, 1, 0, 0, 0, 0, 0, 1, 0] blank_store
     = (Inr (), blank_store(0 := example_instance)) \<and>
   init_st 1 [1, 0, 1, 0, 0, 0, 0, 0, 1, 0] (blank_store(0 := example_instance))
     = (Inr (), blank_store(0 := example_instance, 1 := example_instance)) \<and>
   encrypt_st 0 [1, 1, 0, 1, 0, 1, 1, 1] (blank_store(0 := example_instance, 1 := example_instance))
     = (Inr [1, 0, 1, 0, 1, 0, 0, 0], blank_store(0 := example_instance, 1 := example_instance)) \<and>
   encrypt_st 1 [1, 1, 0, 1, 0, 1, 1, 1] (blank_store(0 := example_instance, 1 := example_instance))
     = (Inr [1, 0, 1, 0, 1, 0, 0, 0], blank_store(0 := example_instance, 1 := example_instance)) \<and>
   generate_keys_st 1 (blank_store(0 := example_instance, 1 := example_instance))
     = (Inr ([1, 0, 1, 0, 0, 1, 0, 0], [0, 1, 0, 0, 0, 0, 1, 1]),
        blank_store(0 := example_instance, 1 := example_instance))"
proof -
  let ?k = "[1, 0, 1, 0, 0, 0, 0, 0, 1, 0] :: int list"
  let ?h1 = "blank_store(0 := example_instance)"
  let ?h2 = "blank_store(0 := example_instance, 1 := example_instance)"
  have i1: "init_st 0 ?k blank_store = (Inr (), ?h1)"
    unfolding init_st_Inr using init_example by blast
  have i2: "init_st 1 ?k ?h1 = (Inr (), ?h2)"
    unfolding init_st_Inr using init_example by blast
  from deterministic[OF i1 i2, of "[1, 1, 0, 1, 0, 1, 1, 1]" "[]"]
  obtain s where "init ?k = Inr s"
    and e: "encrypt_st 0 [1, 1, 0, 1, 0, 1, 1, 1] ?h2 = (encrypt s [1, 1, 0, 1, 0, 1, 1, 1], ?h2)"
           "encrypt_st 1 [1, 1, 0, 1, 0, 1, 1, 1] ?h2 = (encrypt s [1, 1, 0, 1, 0, 1, 1, 1], ?h2)"
           "generate_keys_st 1 ?h2 = (Inr (K1 s, K2 s), ?h2)"
    by blast
  then have s: "s = example_instance" by (simp add: init_example)
  have k: "K1 example_instance = [1, 0, 1, 0, 0, 1, 0, 0]"
    "K2 example_instance = [0, 1, 0, 0, 0, 0, 1, 1]"
    by (simp_all add: example_instance_def)
  from i1 i2 e show ?thesis unfolding s by (simp add: golden_vector k)
qed

subsection \<open>Totality on well-formed input\<close>

text \<open>
  C9. For every well-formed 10-bit key and every well-formed 8-bit block, the constructor
  returns an instance whose subkeys are 8 bits each, and \<open>encrypt\<close> and \<open>decrypt\<close> each
  return a block of 8 bits: no subscript of a permutation, of an S-box or of an exclusive-or
  loop raises. Every function of the model is total, so each call terminates.
\<close>

theorem total_on_well_formed:
  assumes "wf_key k" "wf_block b"
  shows "\<exists>self. init k = Inr self \<and> wf_block (K1 self) \<and> wf_block (K2 self) \<and>
           (\<exists>c. encrypt self b = Inr c \<and> wf_block c) \<and>
           (\<exists>p. decrypt self b = Inr p \<and> wf_block p)"
proof -
  from init_wf[OF assms(1)] obtain self where
    s: "init k = Inr self" "std_tables self" "wf_block (K1 self)" "wf_block (K2 self)"
    by blast
  from two_rounds_inverse[OF s(2) s(3) s(4) assms(2)]
  have "\<exists>c. encrypt self b = Inr c \<and> wf_block c"
    by (auto simp add: encrypt_two_rounds)
  moreover from two_rounds_inverse[OF s(2) s(4) s(3) assms(2)]
  have "\<exists>p. decrypt self b = Inr p \<and> wf_block p"
    by (auto simp add: decrypt_two_rounds)
  ultimately show ?thesis using s by blast
qed

theorem total_on_well_formed_witness:
  "wf_key [1, 0, 1, 0, 0, 0, 0, 0, 1, 0] \<and> wf_block [1, 1, 0, 1, 0, 1, 1, 1] \<and>
   (\<exists>self. init [1, 0, 1, 0, 0, 0, 0, 0, 1, 0] = Inr self \<and>
      wf_block (K1 self) \<and> wf_block (K2 self) \<and>
      (\<exists>c. encrypt self [1, 1, 0, 1, 0, 1, 1, 1] = Inr c \<and> wf_block c) \<and>
      (\<exists>p. decrypt self [1, 1, 0, 1, 0, 1, 1, 1] = Inr p \<and> wf_block p))"
proof -
  have k: "wf_key [1, 0, 1, 0, 0, 0, 0, 0, 1, 0]" by (simp add: wf_key_def is_bits_def)
  have p: "wf_block [1, 1, 0, 1, 0, 1, 1, 1]" by (simp add: wf_block_def is_bits_def)
  from k p total_on_well_formed[OF k p] show ?thesis by simp
qed

subsection \<open>Encryption is a bijection\<close>

text \<open>
  C10. For every well-formed 10-bit key and every well-formed 8-bit block \<open>c\<close>, \<open>decrypt\<close>
  returns a block whose encryption is \<open>c\<close>; \<open>encrypt\<close> is a bijection on the set of the
  well-formed 8-bit blocks, which has 256 elements.
\<close>

theorem roundtrip_encrypt_after_decrypt:
  assumes "wf_key k" "wf_block c"
  shows "\<exists>self. init k = Inr self \<and>
           (\<exists>p. decrypt self c = Inr p \<and> encrypt self p = Inr c) \<and>
           bij_betw (\<lambda>b. projr (encrypt self b)) {b. wf_block b} {b. wf_block b} \<and>
           card {b. wf_block b} = 256"
proof -
  from init_wf[OF assms(1)] obtain self where
    s: "init k = Inr self" "std_tables self" "wf_block (K1 self)" "wf_block (K2 self)"
    by blast
  have e: "\<exists>y. encrypt self b = Inr y \<and> wf_block y \<and> decrypt self y = Inr b" if "wf_block b" for b
    using two_rounds_inverse[OF s(2) s(3) s(4) that]
    by (simp add: encrypt_two_rounds decrypt_two_rounds)
  have d: "\<exists>y. decrypt self b = Inr y \<and> wf_block y \<and> encrypt self y = Inr b" if "wf_block b" for b
    using two_rounds_inverse[OF s(2) s(4) s(3) that]
    by (simp add: encrypt_two_rounds decrypt_two_rounds)
  have "bij_betw (\<lambda>b. projr (encrypt self b)) {b. wf_block b} {b. wf_block b}"
  proof (rule bij_betw_byWitness[where f' = "\<lambda>b. projr (decrypt self b)"])
    show "\<forall>x\<in>{b. wf_block b}. projr (decrypt self (projr (encrypt self x))) = x"
      using e by fastforce
    show "\<forall>y\<in>{b. wf_block b}. projr (encrypt self (projr (decrypt self y))) = y"
      using d by fastforce
    show "(\<lambda>b. projr (encrypt self b)) ` {b. wf_block b} \<subseteq> {b. wf_block b}"
      using e by fastforce
    show "(\<lambda>b. projr (decrypt self b)) ` {b. wf_block b} \<subseteq> {b. wf_block b}"
      using d by fastforce
  qed
  moreover have "card {b. wf_block b} = 256"
  proof -
    have "{b. wf_block b} = {xs. set xs \<subseteq> {0, 1} \<and> length xs = 8}"
      by (auto simp add: wf_block_def is_bits_def list_all_iff)
    moreover have c2: "card {0, 1::int} = 2" by simp
    have "card {xs. set xs \<subseteq> {0, 1::int} \<and> length xs = 8} = card {0, 1::int} ^ 8"
      by (rule card_lists_length_eq) simp
    then have "card {xs. set xs \<subseteq> {0, 1::int} \<and> length xs = 8} = 256"
      unfolding c2 by simp
    ultimately show ?thesis by (simp only:)
  qed
  ultimately show ?thesis using s(1) d[OF assms(2)] by blast
qed

theorem roundtrip_encrypt_after_decrypt_witness:
  "wf_key [1, 0, 1, 0, 0, 0, 0, 0, 1, 0] \<and> wf_block [1, 0, 1, 0, 1, 0, 0, 0] \<and>
   (\<exists>self. init [1, 0, 1, 0, 0, 0, 0, 0, 1, 0] = Inr self \<and>
      (\<exists>p. decrypt self [1, 0, 1, 0, 1, 0, 0, 0] = Inr p \<and> encrypt self p = Inr [1, 0, 1, 0, 1, 0, 0, 0]) \<and>
      bij_betw (\<lambda>b. projr (encrypt self b)) {b. wf_block b} {b. wf_block b} \<and>
      card {b. wf_block b} = 256)"
proof -
  have k: "wf_key [1, 0, 1, 0, 0, 0, 0, 0, 1, 0]" by (simp add: wf_key_def is_bits_def)
  have c: "wf_block [1, 0, 1, 0, 1, 0, 0, 0]" by (simp add: wf_block_def is_bits_def)
  from k c roundtrip_encrypt_after_decrypt[OF k c] show ?thesis by simp
qed

end
